theory Spec2Isabelle
  imports Main "HOL-Library.Sublist"
begin

section \<open>Python strings\<close>

text \<open>
  A Python \<open>str\<close> is a sequence of Unicode code points, and \<open>len\<close> counts code points.
  The em-dash, the ellipsis and the emoji of \<open>generate_citypacks.py\<close> lie outside
  ASCII, so a string is a list of code points (natural numbers), not a list of bytes.
  \<open>py\<close> reads an ASCII literal.
\<close>

type_synonym pystr = "nat list"

definition py :: "string \<Rightarrow> pystr" where
  "py s = map of_char s"

text \<open>
  \<open>str.isspace\<close> on one code point, which is also the class \<open>\\s\<close> of \<open>re\<close> on a
  \<open>str\<close> pattern: tab to carriage return, the four separators U+001C to U+001F, space,
  U+0085, U+00A0, U+1680, U+2000 to U+200A, U+2028, U+2029, U+202F, U+205F, U+3000.
\<close>

definition isspace :: "nat \<Rightarrow> bool" where
  "isspace c =
     ((9 \<le> c \<and> c \<le> 13) \<or> (28 \<le> c \<and> c \<le> 32) \<or> c = 0x85 \<or> c = 0xA0 \<or> c = 0x1680
      \<or> (0x2000 \<le> c \<and> c \<le> 0x200A) \<or> c = 0x2028 \<or> c = 0x2029 \<or> c = 0x202F
      \<or> c = 0x205F \<or> c = 0x3000)"

text \<open>\<open>s.strip()\<close>: whitespace removed at both ends.\<close>

definition strip :: "pystr \<Rightarrow> pystr" where
  "strip s = rev (dropWhile isspace (rev (dropWhile isspace s)))"

text \<open>\<open>sub in s\<close> on strings: \<open>sub\<close> occurs in \<open>s\<close> as a contiguous block.\<close>

fun str_in :: "pystr \<Rightarrow> pystr \<Rightarrow> bool" where
  "str_in sub [] = (sub = [])"
| "str_in sub (c # cs) = (prefix sub (c # cs) \<or> str_in sub cs)"

text \<open>
  \<open>s.rsplit(" ", 1)[0]\<close>: the part of \<open>s\<close> before its last space (U+0020 only), and
  all of \<open>s\<close> when it holds no space.
\<close>

definition rsplit1_head :: "pystr \<Rightarrow> pystr" where
  "rsplit1_head s =
     (if 32 \<in> set s then rev (tl (dropWhile (\<lambda>c. c \<noteq> 32) (rev s))) else s)"

text \<open>\<open>a or b\<close> on strings: \<open>a\<close> unless it is empty.\<close>

definition py_or :: "pystr \<Rightarrow> pystr \<Rightarrow> pystr" where
  "py_or a b = (if a \<noteq> [] then a else b)"

text \<open>\<open>getattr(obj, name, default)\<close> on an attribute that may be missing.\<close>

definition getattr :: "'a option \<Rightarrow> 'a \<Rightarrow> 'a" where
  "getattr v d = (case v of Some x \<Rightarrow> x | None \<Rightarrow> d)"


section \<open>The regular expressions of the script\<close>

subsection \<open>Alternatives of literals, searched ignoring case\<close>

text \<open>
  Every pattern of \<open>EMOJI_RULES\<close> is \<open>re.compile(r"w1|w2|...", re.I)\<close> with words of
  lower-case ASCII letters, so a compiled pattern is the list of its words.
  Under \<open>re.I\<close> a pattern letter \<open>p\<close> accepts itself, its upper-case form, and the
  code points whose lower-case form \<open>re\<close> identifies with it: U+0130 and U+0131 for
  \<open>i\<close>, U+017F for \<open>s\<close>, U+212A for \<open>k\<close>.
\<close>

type_synonym alt_regex = "pystr list"

definition ci_char :: "nat \<Rightarrow> nat \<Rightarrow> bool" where
  "ci_char p c =
     (c = p \<or> (97 \<le> p \<and> p \<le> 122 \<and> c + 32 = p)
      \<or> (p = 105 \<and> (c = 0x130 \<or> c = 0x131))
      \<or> (p = 115 \<and> c = 0x17F)
      \<or> (p = 107 \<and> c = 0x212A))"

fun ci_prefix :: "pystr \<Rightarrow> pystr \<Rightarrow> bool" where
  "ci_prefix [] s = True"
| "ci_prefix (p # ps) [] = False"
| "ci_prefix (p # ps) (c # cs) = (ci_char p c \<and> ci_prefix ps cs)"

text \<open>Some alternative matches where the text begins.\<close>

definition alt_match_at :: "alt_regex \<Rightarrow> pystr \<Rightarrow> bool" where
  "alt_match_at rx s = list_ex (\<lambda>w. ci_prefix w s) rx"

text \<open>
  \<open>rx.search(text)\<close> read as a truth value: \<open>re\<close> tries each position from the left,
  and a match object is always true.
\<close>

fun rx_search :: "alt_regex \<Rightarrow> pystr \<Rightarrow> bool" where
  "rx_search rx [] = alt_match_at rx []"
| "rx_search rx (c # cs) = (alt_match_at rx (c # cs) \<or> rx_search rx cs)"

subsection \<open>An anchored sequence of classes, matched greedily with backtracking\<close>

text \<open>
  The pattern of \<open>re.sub\<close> in \<open>clue_from_title\<close> is \<open>^\<close> followed by single
  classes and greedy \<open>+\<close> repetitions of classes. \<open>match_here\<close> is the backtracking
  matcher of \<open>re\<close> on such a sequence: a repetition first takes the longest run and
  gives characters back one at a time, down to one; the result is what is left of the text
  after the first match found.
\<close>

datatype item = One "nat \<Rightarrow> bool" | Many1 "nat \<Rightarrow> bool"

fun first_some :: "(nat \<Rightarrow> 'a option) \<Rightarrow> nat \<Rightarrow> 'a option" where
  "first_some f 0 = None"
| "first_some f (Suc k) =
     (case f (Suc k) of Some r \<Rightarrow> Some r | None \<Rightarrow> first_some f k)"

primrec match_here :: "item list \<Rightarrow> pystr \<Rightarrow> pystr option" where
  "match_here [] s = Some s"
| "match_here (it # its) s =
     (case it of
        One cls \<Rightarrow>
          (case s of [] \<Rightarrow> None
           | c # cs \<Rightarrow> if cls c then match_here its cs else None)
      | Many1 cls \<Rightarrow>
          first_some (\<lambda>k. match_here its (drop k s)) (length (takeWhile cls s)))"

text \<open>
  \<open>re.sub(r"^...", "", t)\<close>: without \<open>re.M\<close> the anchor holds at position 0 only, so at
  most one match is replaced, and it is replaced by nothing.
\<close>

definition re_sub_anchored :: "item list \<Rightarrow> pystr \<Rightarrow> pystr" where
  "re_sub_anchored its t = (case match_here its t of Some rest \<Rightarrow> rest | None \<Rightarrow> t)"


section \<open>The emoji heuristic\<close>

definition EMOJI_RULES :: "(alt_regex \<times> pystr) list" where
  "EMOJI_RULES =
    [(map py [''subway'', ''metro'', ''rail'', ''train'', ''airport'', ''flight'', ''transit''],
        [0x1F687]),
     (map py [''storm'', ''snow'', ''rain'', ''flood'', ''heat'', ''wildfire'', ''earthquake'',
        ''hurricane''], [0x1F327, 0xFE0F]),
     (map py [''mayor'', ''council'', ''parliament'', ''congress'', ''government'', ''policy'',
        ''election''], [0x1F3DB, 0xFE0F]),
     (map py [''court'', ''judge'', ''trial'', ''lawsuit'', ''legal''], [0x2696, 0xFE0F]),
     (map py [''music'', ''festival'', ''concert'', ''tour''], [0x1F3B6]),
     (map py [''art'', ''museum'', ''exhibit'', ''gallery'', ''theater'', ''theatre'',
        ''broadway'', ''film''], [0x1F3AD]),
     (map py [''soccer'', ''football'', ''nba'', ''nfl'', ''mlb'', ''nhl'', ''win'', ''beat'',
        ''match'', ''game''], [0x1F3DF, 0xFE0F]),
     (map py [''restaurant'', ''food'', ''chef'', ''dining''], [0x1F37D, 0xFE0F]),
     (map py [''tech'', ''ai'', ''startup'', ''software'', ''chip'', ''cyber''], [0x1F4BB]),
     (map py [''port'', ''harbor'', ''harbour'', ''ship'', ''cruise''], [0x2693, 0xFE0F])]"

text \<open>The newspaper emoji U+1F4F0 returned when no rule matches.\<close>

definition NEWS_EMOJI :: pystr where
  "NEWS_EMOJI = [0x1F4F0]"

text \<open>The \<open>for\<close> loop of \<open>pick_emoji\<close> over a list of rules, on the text \<open>title or ""\<close>.\<close>

fun pick_from :: "(alt_regex \<times> pystr) list \<Rightarrow> pystr \<Rightarrow> pystr" where
  "pick_from [] text = NEWS_EMOJI"
| "pick_from ((rx, em) # rules) text =
     (if rx_search rx text then em else pick_from rules text)"

text \<open>\<open>pick_emoji(title)\<close>; the argument \<open>None\<close> of Python is \<open>None\<close> here.\<close>

definition pick_emoji :: "pystr option \<Rightarrow> pystr" where
  "pick_emoji title = pick_from EMOJI_RULES (case title of None \<Rightarrow> [] | Some t \<Rightarrow> py_or t [])"


section \<open>The clue\<close>

definition starters :: "pystr list" where
  "starters =
    [py ''Yesterday, the front page led with: '',
     py ''Yesterday, everyone was talking about: '',
     py ''Yesterday, a headline that stood out: '',
     py ''Yesterday, the biggest buzz was about: '']"

text \<open>
  \<open>^[A-Z][A-Za-z\\s\\-]+\\s+X\\s+\<close> where \<open>X\<close> is the em-dash U+2014.
\<close>

definition is_AZ :: "nat \<Rightarrow> bool" where
  "is_AZ c = (65 \<le> c \<and> c \<le> 90)"

definition city_class :: "nat \<Rightarrow> bool" where
  "city_class c = (is_AZ c \<or> (97 \<le> c \<and> c \<le> 122) \<or> isspace c \<or> c = 45)"

definition CITY_PREFIX :: "item list" where
  "CITY_PREFIX =
     [One is_AZ, Many1 city_class, Many1 isspace, One (\<lambda>c. c = 0x2014), Many1 isspace]"

text \<open>The title after \<open>strip\<close> and the removal of the city prefix (lines 49 to 51).\<close>

definition strip_city_prefix :: "pystr \<Rightarrow> pystr" where
  "strip_city_prefix title = re_sub_anchored CITY_PREFIX (strip title)"

text \<open>The shortening of long titles (lines 60 and 61); U+2026 is the ellipsis.\<close>

definition shorten :: "pystr \<Rightarrow> pystr" where
  "shorten t = (if length t > 95 then rsplit1_head (take 92 t) @ [0x2026] else t)"

text \<open>
  \<open>clue_from_title(title)\<close>. The function reads the clock; \<open>now\<close> is the value of
  \<open>int(time.time())\<close> at the call. Python's \<open>%\<close> with a positive modulus is never
  negative, as \<open>mod\<close> on \<open>int\<close>.
\<close>

definition clue_from_title :: "int \<Rightarrow> pystr \<Rightarrow> pystr" where
  "clue_from_title now title =
     (let t = strip_city_prefix title;
          s = starters ! nat (now mod int (length starters));
          t = shorten t
      in s @ t)"


section \<open>Resolving a link\<close>

text \<open>
  What \<open>requests.get\<close> does is outside the script, so it is a parameter: the request
  either returns a response, of which the script reads \<open>r.url\<close> only, or fails with
  an exception. Every exception that a request raises derives from \<open>Exception\<close>.
\<close>

datatype request_error =
  ConnectionFailed | Timeout | TooManyRedirects | InvalidURL | OtherException pystr

type_synonym http_get = "pystr \<Rightarrow> request_error + pystr"

text \<open>\<open>resolve_url(url)\<close>: the \<open>try\<close> returns \<open>r.url\<close>, the \<open>except\<close> returns \<open>url\<close>.\<close>

definition resolve_url :: "http_get \<Rightarrow> pystr \<Rightarrow> pystr" where
  "resolve_url get url = (case get url of Inr final \<Rightarrow> final | Inl err \<Rightarrow> url)"


section \<open>Building the pack of a city\<close>

text \<open>
  A feed entry as the script reads it: each attribute may be missing, and \<open>source\<close>
  is an object with an optional \<open>title\<close>.
\<close>

record feed_source =
  src_title :: "pystr option"

record entry =
  e_title :: "pystr option"
  e_link :: "pystr option"
  e_source :: "feed_source option"
  e_publisher :: "pystr option"
  e_author :: "pystr option"

record story =
  headline :: pystr
  source :: pystr
  url :: pystr

record card =
  emoji :: pystr
  clue :: pystr

definition NEWS_GOOGLE :: pystr where
  "NEWS_GOOGLE = py ''news.google''"

text \<open>Lines 87 to 91: the name of the source, with its fallbacks.\<close>

definition src_name :: "entry \<Rightarrow> pystr" where
  "src_name e =
     (let name = (case e_source e of None \<Rightarrow> [] | Some src \<Rightarrow> getattr (src_title src) [])
      in if name = []
         then py_or (getattr (e_publisher e) []) (py_or (getattr (e_author e) []) (py ''Source''))
         else name)"

text \<open>
  One turn of the loop of lines 78 to 98 on the entry \<open>e\<close>, with \<open>get\<close> the behaviour of
  the network during this turn. It returns the stories and how the loop goes on:
  \<open>continue\<close> and the end of the body are \<open>Next\<close>, \<open>break\<close> is \<open>Stop\<close>.
\<close>

datatype flow = Next | Stop

definition visit :: "http_get \<Rightarrow> entry \<Rightarrow> story list \<Rightarrow> story list \<times> flow" where
  "visit get e stories =
     (let title = strip (getattr (e_title e) []);
          link = strip (getattr (e_link e) [])
      in if title = [] \<or> link = [] then (stories, Next)
         else let pub_url = resolve_url get link
              in if str_in NEWS_GOOGLE pub_url then (stories, Next)
                 else let stories' = stories @
                            [\<lparr>headline = title, source = take 40 (src_name e), url = pub_url\<rparr>]
                      in if length stories' \<ge> 4 then (stories', Stop) else (stories', Next))"

text \<open>
  The loop itself. The request made for the entry at position \<open>i\<close> of \<open>entries\<close> is
  answered by \<open>net i\<close>: the network may answer each request differently.
\<close>

fun resolve_pass :: "(nat \<Rightarrow> http_get) \<Rightarrow> nat \<Rightarrow> entry list \<Rightarrow> story list \<Rightarrow> story list" where
  "resolve_pass net i [] stories = stories"
| "resolve_pass net i (e # es) stories =
     (case visit (net i) e stories of
        (stories', Stop) \<Rightarrow> stories'
      | (stories', Next) \<Rightarrow> resolve_pass net (Suc i) es stories')"

text \<open>
  The \<open>while\<close> loop of lines 101 to 107. The index \<open>len(stories)\<close> is in range when
  the loop condition holds.
\<close>

function backfill :: "entry list \<Rightarrow> story list \<Rightarrow> story list" where
  "backfill entries stories =
     (if length stories < 4 \<and> length entries > length stories
      then let e = entries ! length stories
           in backfill entries (stories @
                [\<lparr>headline = py_or (strip (getattr (e_title e) [])) (py ''Headline''),
                  source = py ''Google News'',
                  url = strip (getattr (e_link e) [])\<rparr>])
      else stories)"
  by pat_completeness auto
termination
  by (relation "measure (\<lambda>(entries, stories). 4 - length stories)") auto

declare backfill.simps [simp del]

text \<open>
  The list comprehension of lines 109 to 112. Each call of \<open>clue_from_title\<close> reads the
  clock again: \<open>clock k\<close> is the reading of the call for the story at position \<open>k\<close>.
\<close>

definition make_cards :: "(nat \<Rightarrow> int) \<Rightarrow> story list \<Rightarrow> card list" where
  "make_cards clock ss =
     map (\<lambda>(k, s). \<lparr>emoji = pick_emoji (Some (headline s)),
                     clue = clue_from_title (clock k) (headline s)\<rparr>)
         (enumerate 0 (take 4 ss))"

record pack =
  city :: pystr
  cards :: "card list"
  stories :: "story list"

text \<open>
  The body of the loop over the cities (lines 72 to 119), given the entries that
  \<open>feedparser.parse\<close> returned for the city.
\<close>

definition city_pack :: "(nat \<Rightarrow> http_get) \<Rightarrow> (nat \<Rightarrow> int) \<Rightarrow> pystr \<Rightarrow> entry list \<Rightarrow> pack" where
  "city_pack net clock name feed_entries =
     (let entries = take 8 feed_entries;
          stories = resolve_pass net 0 entries [];
          stories = backfill entries stories
      in \<lparr>city = name, cards = make_cards clock stories, stories = take 4 stories\<rparr>)"

text \<open>
  \<open>out_packs\<close> of \<open>main\<close> for the cities of the input file. The feed, the network and
  the clock of the city at position \<open>j\<close> are \<open>feed j\<close>, \<open>net j\<close> and \<open>clock j\<close>.
\<close>

definition main_packs ::
  "(nat \<Rightarrow> pystr \<Rightarrow> entry list) \<Rightarrow> (nat \<Rightarrow> nat \<Rightarrow> http_get) \<Rightarrow> (nat \<Rightarrow> nat \<Rightarrow> int) \<Rightarrow> pystr list \<Rightarrow> pack list" where
  "main_packs feed net clock cities =
     map (\<lambda>(j, name). city_pack (net j) (clock j) name (feed j name)) (enumerate 0 cities)"


section \<open>Names for the parts of the loops\<close>

text \<open>The dictionary of lines 92 to 96, built for an entry that is kept.\<close>

definition resolved_story :: "http_get \<Rightarrow> entry \<Rightarrow> story" where
  "resolved_story get e =
     \<lparr>headline = strip (getattr (e_title e) []),
      source = take 40 (src_name e),
      url = resolve_url get (strip (getattr (e_link e) []))\<rparr>"

text \<open>The dictionary of lines 103 to 107, built for an entry used as it is in the feed.\<close>

definition fallback_story :: "entry \<Rightarrow> story" where
  "fallback_story e =
     \<lparr>headline = py_or (strip (getattr (e_title e) [])) (py ''Headline''),
      source = py ''Google News'',
      url = strip (getattr (e_link e) [])\<rparr>"

text \<open>
  The entry takes one of the two \<open>continue\<close> statements of lines 82 and 86: its title
  or its link is empty once stripped, or its resolved URL contains \<open>news.google\<close>.
\<close>

definition skipped :: "http_get \<Rightarrow> entry \<Rightarrow> bool" where
  "skipped get e =
     (strip (getattr (e_title e) []) = [] \<or> strip (getattr (e_link e) []) = [] \<or>
      str_in NEWS_GOOGLE (resolve_url get (strip (getattr (e_link e) []))))"

text \<open>
  The test of claim C3 in the words of the specification, to compare with the test of
  line 85: the domain of a URL is what stands between \<open>://\<close> and the next \<open>/\<close>,
  \<open>?\<close> or \<open>#\<close>, and it matches the aggregator when it contains \<open>news.google\<close>.
\<close>

fun drop_scheme :: "pystr \<Rightarrow> pystr option" where
  "drop_scheme [] = None"
| "drop_scheme (c # cs) =
     (if prefix (py ''://'') (c # cs) then Some (drop 3 (c # cs)) else drop_scheme cs)"

definition spec_url_domain :: "pystr \<Rightarrow> pystr" where
  "spec_url_domain u =
     takeWhile (\<lambda>c. c \<noteq> 47 \<and> c \<noteq> 63 \<and> c \<noteq> 35)
       (case drop_scheme u of Some rest \<Rightarrow> rest | None \<Rightarrow> u)"

definition spec_domain_is_aggregator :: "pystr \<Rightarrow> bool" where
  "spec_domain_is_aggregator u = str_in NEWS_GOOGLE (spec_url_domain u)"


section \<open>Inputs for the examples\<close>

text \<open>
  A network that answers every request with \<open>r\<close>; a network that answers the request of
  the entry at position \<open>i\<close> as the \<open>i\<close>-th of a list does; a clock that starts at \<open>t\<close>
  and is one second later at each reading; a feed that is the same for every city; an
  entry that has a title and a link and no other attribute.
\<close>

definition always :: "request_error + pystr \<Rightarrow> http_get" where
  "always r u = r"

definition by_position :: "http_get list \<Rightarrow> nat \<Rightarrow> http_get" where
  "by_position gs i = (if i < length gs then gs ! i else always (Inl ConnectionFailed))"

definition ticking :: "int \<Rightarrow> nat \<Rightarrow> int" where
  "ticking t k = t + int k"

definition same_feed :: "entry list \<Rightarrow> nat \<Rightarrow> pystr \<Rightarrow> entry list" where
  "same_feed es j name = es"

definition simple_entry :: "pystr \<Rightarrow> pystr \<Rightarrow> entry" where
  "simple_entry title link =
     \<lparr>e_title = Some title, e_link = Some link, e_source = None, e_publisher = None,
      e_author = None\<rparr>"

text \<open>
  A value that is the same for every city; a feed of eight entries that all resolve to a
  publisher; a feed of two entries of which the first does not resolve.
\<close>

definition for_every_city :: "'a \<Rightarrow> nat \<Rightarrow> 'a" where
  "for_every_city x j = x"

definition eight_entries :: "entry list" where
  "eight_entries =
    [simple_entry (py ''Storm floods the old town'') (py ''https://news.google.com/rss/articles/0''),
     simple_entry (py ''Mayor opens new museum'') (py ''https://news.google.com/rss/articles/1''),
     simple_entry (py ''Metro line extended to airport'') (py ''https://news.google.com/rss/articles/2''),
     simple_entry (py ''Chef wins dining award'') (py ''https://news.google.com/rss/articles/3''),
     simple_entry (py ''Court hears harbour lawsuit'') (py ''https://news.google.com/rss/articles/4''),
     simple_entry (py ''Festival draws record crowd'') (py ''https://news.google.com/rss/articles/5''),
     simple_entry (py ''Startup unveils new chip'') (py ''https://news.google.com/rss/articles/6''),
     simple_entry (py ''Quiet day in town'') (py ''https://news.google.com/rss/articles/7'')]"

definition eight_answers :: "nat \<Rightarrow> http_get" where
  "eight_answers =
     by_position
       [always (Inr (py ''https://example.com/0'')), always (Inr (py ''https://example.com/1'')),
        always (Inr (py ''https://example.com/2'')), always (Inr (py ''https://example.com/3'')),
        always (Inr (py ''https://example.com/4'')), always (Inr (py ''https://example.com/5'')),
        always (Inr (py ''https://example.com/6'')), always (Inr (py ''https://example.com/7''))]"

definition two_entries :: "entry list" where
  "two_entries =
    [simple_entry (py ''Metro strike ends'') (py ''https://news.google.com/rss/articles/1''),
     simple_entry (py ''Harbour bridge reopens'') (py ''https://news.google.com/rss/articles/2'')]"

definition two_answers :: "nat \<Rightarrow> http_get" where
  "two_answers =
     by_position [always (Inl Timeout), always (Inr (py ''https://example.com/harbour-bridge''))]"

text \<open>The packs of two cities that both get the feed of eight entries.\<close>

definition two_city_packs :: "pack list" where
  "two_city_packs =
     main_packs (same_feed eight_entries) (for_every_city eight_answers)
       (for_every_city (ticking 0)) [py ''Paris'', py ''Lima'']"

text \<open>
  The conditions of claim C6 in the words of the specification: the title and the link
  of the entry are not empty, and the domain of the resolved URL is not the aggregator's.
  A feed meets them when each entry does, with the answer of the network for its position.
\<close>

definition spec_entry_ok :: "http_get \<Rightarrow> entry \<Rightarrow> bool" where
  "spec_entry_ok get e =
     (getattr (e_title e) [] \<noteq> [] \<and> getattr (e_link e) [] \<noteq> [] \<and>
      \<not> spec_domain_is_aggregator (resolve_url get (strip (getattr (e_link e) []))))"

definition spec_feed_ok :: "(nat \<Rightarrow> http_get) \<Rightarrow> entry list \<Rightarrow> bool" where
  "spec_feed_ok net es = list_all (\<lambda>(i, e). spec_entry_ok (net i) e) (enumerate 0 es)"

text \<open>
  The answers to the feed of eight entries when the first article is reached through a
  link that names the aggregator in its query string.
\<close>

definition referred_answers :: "nat \<Rightarrow> http_get" where
  "referred_answers =
     by_position
       [always (Inr (py ''https://example.com/story?ref=news.google.com'')),
        always (Inr (py ''https://example.com/1'')),
        always (Inr (py ''https://example.com/2'')), always (Inr (py ''https://example.com/3'')),
        always (Inr (py ''https://example.com/4'')), always (Inr (py ''https://example.com/5'')),
        always (Inr (py ''https://example.com/6'')), always (Inr (py ''https://example.com/7''))]"


section \<open>Properties of the clue\<close>

lemma length_rsplit1_head: "length (rsplit1_head s) \<le> length s"
proof -
  have "length (dropWhile (\<lambda>c. c \<noteq> 32) (rev s)) \<le> length (rev s)"
    by (rule length_dropWhile_le)
  then show ?thesis by (auto simp add: rsplit1_head_def)
qed

lemma length_shorten: "length (shorten t) \<le> 95"
proof (cases "length t > 95")
  case True
  have "length (rsplit1_head (take 92 t)) \<le> length (take 92 t)"
    by (rule length_rsplit1_head)
  then have "length (rsplit1_head (take 92 t)) \<le> 92" by simp
  with True show ?thesis by (simp add: shorten_def)
next
  case False
  then show ?thesis by (simp add: shorten_def)
qed

lemma length_starters: "length starters = 4"
  by (simp add: starters_def)

lemma starter_length_le: "k < 4 \<Longrightarrow> length (starters ! k) \<le> 39"
proof -
  assume k: "k < 4"
  have all: "\<forall>s \<in> set starters. length s \<le> 39"
    by (simp add: starters_def py_def)
  from k have "starters ! k \<in> set starters"
    by (simp add: length_starters)
  with all show ?thesis by blast
qed

lemma clue_split:
  "clue_from_title now title = starters ! nat (now mod 4) @ shorten (strip_city_prefix title)"
  by (simp add: clue_from_title_def length_starters)

text \<open>
  Claim C1 says that \<open>clue_from_title\<close> never returns more than 96 characters. The
  script shortens the title only (to at most 95 characters) and then puts the lead-in
  phrase, of 36 to 39 characters, in front of it. A title of 67 characters read at a clock
  value divisible by 4 already gives a clue of 103 characters.
\<close>

theorem clue_longer_than_96:
  "\<not> length (clue_from_title 0
        (py ''City council approves the new budget for the harbour bridge repairs'')) \<le> 96"
  by (simp add: clue_split starters_def shorten_def strip_city_prefix_def re_sub_anchored_def
      CITY_PREFIX_def strip_def py_def isspace_def is_AZ_def city_class_def)

text \<open>
  Claim C1, as the script has it: for every clock value and every title, the clue is one
  of the four lead-in phrases followed by a title text of at most 95 characters, so it has
  at most 134 characters.
\<close>

theorem clue_from_title_length:
  "length (clue_from_title now title) \<le> 134 \<and>
   (\<exists>s \<in> set starters. \<exists>body. clue_from_title now title = s @ body \<and> length body \<le> 95)"
proof -
  let ?k = "nat (now mod 4)"
  let ?body = "shorten (strip_city_prefix title)"
  have k: "?k < 4" by simp
  have eq: "clue_from_title now title = starters ! ?k @ ?body" by (rule clue_split)
  have s: "length (starters ! ?k) \<le> 39" using k by (rule starter_length_le)
  have b: "length ?body \<le> 95" by (rule length_shorten)
  have mem: "starters ! ?k \<in> set starters" using k by (simp add: length_starters)
  from eq s b have "length (clue_from_title now title) \<le> 134" by simp
  with eq b mem show ?thesis by blast
qed

theorem clue_from_title_length_witness:
  "length (clue_from_title 1 (py ''Storm closes the harbour'')) \<le> 134"
  using clue_from_title_length [of 1 "py ''Storm closes the harbour''"] by simp


text \<open>
  Claim C8: for every title, the lead-in phrase that \<open>clue_from_title\<close> prepends is
  the one at index (clock value mod 4) of the list of four starters; so two clues made
  at the same clock value \<open>now\<close>, for any two titles, begin with the same lead-in phrase.
\<close>

theorem lead_in_by_clock:
  "length starters = 4 \<and>
   clue_from_title now title =
     starters ! nat (now mod 4) @ shorten (strip_city_prefix title) \<and>
   prefix (starters ! nat (now mod 4)) (clue_from_title now title) \<and>
   prefix (starters ! nat (now mod 4)) (clue_from_title now title')"
  by (simp add: clue_split length_starters)

theorem lead_in_by_clock_witness:
  "starters ! nat (1730678402 mod 4) = py ''Yesterday, a headline that stood out: '' \<and>
   prefix (py ''Yesterday, a headline that stood out: '')
     (clue_from_title 1730678402 (py ''Storm closes the harbour'')) \<and>
   prefix (py ''Yesterday, a headline that stood out: '')
     (clue_from_title 1730678402 (py ''Mayor opens new museum''))"
  using lead_in_by_clock [of 1730678402 "py ''Storm closes the harbour''" "py ''Mayor opens new museum''"]
  by (simp add: starters_def)

text \<open>
  Claim C9: on the headline \<open>Paris X City Unveils New Metro Line\<close>, with \<open>X\<close> the
  em-dash, the removal of the city prefix leaves \<open>City Unveils New Metro Line\<close>, and the
  clue is the lead-in phrase followed by exactly that text.
\<close>

theorem paris_prefix_stripped:
  "strip_city_prefix (py ''Paris '' @ [0x2014] @ py '' City Unveils New Metro Line'') =
     py ''City Unveils New Metro Line'' \<and>
   clue_from_title now (py ''Paris '' @ [0x2014] @ py '' City Unveils New Metro Line'') =
     starters ! nat (now mod 4) @ py ''City Unveils New Metro Line''"
proof -
  have a: "strip_city_prefix (py ''Paris '' @ [0x2014] @ py '' City Unveils New Metro Line'') =
     py ''City Unveils New Metro Line''"
    by (simp add: strip_city_prefix_def re_sub_anchored_def CITY_PREFIX_def strip_def py_def
        isspace_def is_AZ_def city_class_def)
  have b: "shorten (py ''City Unveils New Metro Line'') = py ''City Unveils New Metro Line''"
    by (simp add: shorten_def py_def)
  show ?thesis by (simp only: clue_split a b simp_thms)
qed

theorem paris_prefix_stripped_witness:
  "clue_from_title 0 (py ''Paris '' @ [0x2014] @ py '' City Unveils New Metro Line'') =
     py ''Yesterday, the front page led with: City Unveils New Metro Line''"
  using paris_prefix_stripped [of 0] by (simp add: starters_def py_def)


section \<open>Properties of the resolver\<close>

text \<open>
  Claim C7: \<open>resolve_url\<close> always returns a URL. When the request succeeds it returns
  the final URL of the response; when the request fails, whatever the exception, it
  returns the link it was given, unchanged. One of the two is always the case.
\<close>

theorem resolve_url_fail_open:
  "(get link = Inr final \<longrightarrow> resolve_url get link = final) \<and>
   (get link = Inl err \<longrightarrow> resolve_url get link = link) \<and>
   ((\<exists>final. get link = Inr final \<and> resolve_url get link = final) \<or>
    (\<exists>err. get link = Inl err \<and> resolve_url get link = link))"
  by (cases "get link") (simp_all add: resolve_url_def)

theorem resolve_url_fail_open_witness:
  "resolve_url (always (Inr (py ''https://example.com/a''))) (py ''https://news.google.com/a'') =
     py ''https://example.com/a'' \<and>
   resolve_url (always (Inl Timeout)) (py ''https://news.google.com/b'') =
     py ''https://news.google.com/b''"
proof -
  have a: "always (Inr (py ''https://example.com/a'')) (py ''https://news.google.com/a'') =
      Inr (py ''https://example.com/a'')"
    by (simp add: always_def)
  have b: "always (Inl Timeout) (py ''https://news.google.com/b'') = Inl Timeout"
    by (simp add: always_def)
  from a have "resolve_url (always (Inr (py ''https://example.com/a'')))
      (py ''https://news.google.com/a'') = py ''https://example.com/a''"
    by (rule resolve_url_fail_open [THEN conjunct1, THEN mp])
  moreover from b have "resolve_url (always (Inl Timeout)) (py ''https://news.google.com/b'') =
      py ''https://news.google.com/b''"
    by (rule resolve_url_fail_open [THEN conjunct2, THEN conjunct1, THEN mp])
  ultimately show ?thesis by (rule conjI)
qed


section \<open>Properties of the emoji heuristic\<close>

lemma pick_from_first:
  "i < length rules \<Longrightarrow> rx_search (fst (rules ! i)) hl \<Longrightarrow>
   \<forall>j < i. \<not> rx_search (fst (rules ! j)) hl \<Longrightarrow>
   pick_from rules hl = snd (rules ! i)"
proof (induction rules arbitrary: i)
  case Nil
  then show ?case by simp
next
  case (Cons r rules)
  obtain rx em where r: "r = (rx, em)" by (cases r)
  show ?case
  proof (cases i)
    case 0
    with Cons.prems r show ?thesis by simp
  next
    case (Suc k)
    from Cons.prems(3) Suc have first: "\<not> rx_search rx hl"
      using r by fastforce
    from Cons.prems(3) Suc have rest: "\<forall>j < k. \<not> rx_search (fst (rules ! j)) hl"
      by fastforce
    from Cons.prems Suc have "pick_from rules hl = snd (rules ! k)"
      using rest by (intro Cons.IH) simp_all
    with first r Suc show ?thesis by simp
  qed
qed

lemma pick_from_none:
  "\<forall>i < length rules. \<not> rx_search (fst (rules ! i)) hl \<Longrightarrow> pick_from rules hl = NEWS_EMOJI"
proof (induction rules)
  case Nil
  then show ?case by simp
next
  case (Cons r rules)
  obtain rx em where r: "r = (rx, em)" by (cases r)
  from Cons.prems have first: "\<not> rx_search rx hl" using r by fastforce
  from Cons.prems have "\<forall>i < length rules. \<not> rx_search (fst (rules ! i)) hl" by fastforce
  then have "pick_from rules hl = NEWS_EMOJI" by (rule Cons.IH)
  with first r show ?case by simp
qed

lemma pick_from_range: "pick_from rules hl \<in> set (map snd rules @ [NEWS_EMOJI])"
proof (induction rules)
  case Nil
  show ?case by simp
next
  case (Cons r rules)
  obtain rx em where r: "r = (rx, em)" by (cases r)
  from Cons.IH r show ?case by (cases "rx_search rx hl") auto
qed

lemma ci_char_same: "ci_char p p"
  by (simp add: ci_char_def)

lemma prefix_ci_prefix: "prefix w s \<Longrightarrow> ci_prefix w s"
  by (induction w s rule: ci_prefix.induct) (simp_all add: ci_char_same)

lemma rx_search_word: "w \<in> set rx \<Longrightarrow> rx_search [w] hl \<Longrightarrow> rx_search rx hl"
  by (induction hl) (auto simp: alt_match_at_def list_ex_iff)

lemma str_in_rx_search: "str_in w hl \<Longrightarrow> rx_search [w] hl"
  by (induction hl) (auto simp: alt_match_at_def dest: prefix_ci_prefix)

lemma pick_emoji_Some: "pick_emoji (Some hl) = pick_from EMOJI_RULES hl"
  by (simp add: pick_emoji_def py_or_def)

lemma length_EMOJI_RULES: "length EMOJI_RULES = 10"
  by (simp add: EMOJI_RULES_def)

lemma weather_rule:
  "py ''earthquake'' \<in> set (fst (EMOJI_RULES ! 1)) \<and> snd (EMOJI_RULES ! 1) = [0x1F327, 0xFE0F]"
  by (simp add: EMOJI_RULES_def)

lemma transit_rule:
  "fst (EMOJI_RULES ! 0) =
     map py [''subway'', ''metro'', ''rail'', ''train'', ''airport'', ''flight'', ''transit'']"
  by (simp add: EMOJI_RULES_def)

lemma earthquake_weather:
  assumes q: "rx_search [py ''earthquake''] hl"
    and t: "\<not> rx_search (fst (EMOJI_RULES ! 0)) hl"
  shows "pick_from EMOJI_RULES hl = [0x1F327, 0xFE0F]"
proof -
  have m: "rx_search (fst (EMOJI_RULES ! 1)) hl"
    using weather_rule q by (blast intro: rx_search_word)
  have "pick_from EMOJI_RULES hl = snd (EMOJI_RULES ! 1)"
  proof (rule pick_from_first)
    show "1 < length EMOJI_RULES" by (simp add: length_EMOJI_RULES)
    show "rx_search (fst (EMOJI_RULES ! 1)) hl" by (rule m)
    show "\<forall>j < 1. \<not> rx_search (fst (EMOJI_RULES ! j)) hl" using t by simp
  qed
  then show ?thesis using weather_rule by simp
qed

text \<open>
  Claim C4: \<open>pick_emoji\<close> returns the emoji of the first rule, in the order of
  \<open>EMOJI_RULES\<close>, whose pattern is found in the headline ignoring case, and the news
  emoji when no pattern is found. In particular a headline that contains
  \<open>earthquake\<close> (as written, or in any mix of cases) and in which the transit pattern
  is not found gets the weather emoji U+1F327 U+FE0F.
\<close>

theorem pick_emoji_first_match:
  "(\<forall>i < length EMOJI_RULES.
      rx_search (fst (EMOJI_RULES ! i)) hl \<and>
      (\<forall>j < i. \<not> rx_search (fst (EMOJI_RULES ! j)) hl) \<longrightarrow>
      pick_emoji (Some hl) = snd (EMOJI_RULES ! i)) \<and>
   ((\<forall>i < length EMOJI_RULES. \<not> rx_search (fst (EMOJI_RULES ! i)) hl) \<longrightarrow>
      pick_emoji (Some hl) = NEWS_EMOJI) \<and>
   (str_in (py ''earthquake'') hl \<and>
    \<not> rx_search (map py [''subway'', ''metro'', ''rail'', ''train'', ''airport'', ''flight'',
         ''transit'']) hl \<longrightarrow>
      pick_emoji (Some hl) = [0x1F327, 0xFE0F]) \<and>
   (rx_search [py ''earthquake''] hl \<and>
    \<not> rx_search (map py [''subway'', ''metro'', ''rail'', ''train'', ''airport'', ''flight'',
         ''transit'']) hl \<longrightarrow>
      pick_emoji (Some hl) = [0x1F327, 0xFE0F])"
proof (intro conjI allI impI)
  fix i
  assume "i < length EMOJI_RULES"
    and "rx_search (fst (EMOJI_RULES ! i)) hl \<and> (\<forall>j < i. \<not> rx_search (fst (EMOJI_RULES ! j)) hl)"
  then show "pick_emoji (Some hl) = snd (EMOJI_RULES ! i)"
    by (simp add: pick_emoji_Some pick_from_first)
next
  assume "\<forall>i < length EMOJI_RULES. \<not> rx_search (fst (EMOJI_RULES ! i)) hl"
  then show "pick_emoji (Some hl) = NEWS_EMOJI"
    by (simp add: pick_emoji_Some pick_from_none)
next
  assume "str_in (py ''earthquake'') hl \<and>
    \<not> rx_search (map py [''subway'', ''metro'', ''rail'', ''train'', ''airport'', ''flight'',
         ''transit'']) hl"
  then have "rx_search [py ''earthquake''] hl" and "\<not> rx_search (fst (EMOJI_RULES ! 0)) hl"
    by (simp_all add: transit_rule str_in_rx_search)
  then show "pick_emoji (Some hl) = [0x1F327, 0xFE0F]"
    unfolding pick_emoji_Some by (rule earthquake_weather)
next
  assume "rx_search [py ''earthquake''] hl \<and>
    \<not> rx_search (map py [''subway'', ''metro'', ''rail'', ''train'', ''airport'', ''flight'',
         ''transit'']) hl"
  then have "rx_search [py ''earthquake''] hl" and "\<not> rx_search (fst (EMOJI_RULES ! 0)) hl"
    by (simp_all add: transit_rule)
  then show "pick_emoji (Some hl) = [0x1F327, 0xFE0F]"
    unfolding pick_emoji_Some by (rule earthquake_weather)
qed

theorem pick_emoji_first_match_witness:
  "pick_emoji (Some (py ''Earthquake shakes the city'')) = [0x1F327, 0xFE0F] \<and>
   pick_emoji (Some (py ''Quiet day in town'')) = NEWS_EMOJI \<and>
   pick_emoji (Some (py ''Airport reopens after earthquake'')) = [0x1F687]"
proof -
  let ?a = "py ''Earthquake shakes the city''"
  let ?b = "py ''Quiet day in town''"
  let ?c = "py ''Airport reopens after earthquake''"
  have a1: "str_in (py ''earthquake'') (py ''An earthquake shakes the city'')"
    by (simp add: py_def)
  have a2: "\<not> rx_search (map py [''subway'', ''metro'', ''rail'', ''train'', ''airport'',
      ''flight'', ''transit'']) (py ''An earthquake shakes the city'')"
    by (simp add: py_def alt_match_at_def ci_char_def)
  have a3: "rx_search [py ''earthquake''] ?a"
    by (simp add: py_def alt_match_at_def ci_char_def)
  have a4: "\<not> rx_search (map py [''subway'', ''metro'', ''rail'', ''train'', ''airport'',
      ''flight'', ''transit'']) ?a"
    by (simp add: py_def alt_match_at_def ci_char_def)
  have "list_all (\<lambda>r. \<not> rx_search (fst r) ?b) EMOJI_RULES"
    by (simp add: EMOJI_RULES_def py_def alt_match_at_def ci_char_def)
  then have b1: "\<forall>i < length EMOJI_RULES. \<not> rx_search (fst (EMOJI_RULES ! i)) ?b"
    by (simp add: list_all_length)
  have c0: "0 < length EMOJI_RULES"
    by (simp add: EMOJI_RULES_def)
  have c1: "rx_search (fst (EMOJI_RULES ! 0)) ?c \<and>
      (\<forall>j < 0. \<not> rx_search (fst (EMOJI_RULES ! j)) ?c)"
    by (simp add: EMOJI_RULES_def py_def alt_match_at_def ci_char_def)
  have c2: "snd (EMOJI_RULES ! 0) = [0x1F687]"
    by (simp add: EMOJI_RULES_def)
  have "pick_emoji (Some (py ''An earthquake shakes the city'')) = [0x1F327, 0xFE0F]"
    by (rule mp [OF pick_emoji_first_match [THEN conjunct2, THEN conjunct2, THEN conjunct1]
          conjI [OF a1 a2]])
  have A: "pick_emoji (Some ?a) = [0x1F327, 0xFE0F]"
    by (rule mp [OF pick_emoji_first_match [THEN conjunct2, THEN conjunct2, THEN conjunct2]
          conjI [OF a3 a4]])
  have B: "pick_emoji (Some ?b) = NEWS_EMOJI"
    by (rule mp [OF pick_emoji_first_match [THEN conjunct2, THEN conjunct1] b1])
  have "pick_emoji (Some ?c) = snd (EMOJI_RULES ! 0)"
    by (rule pick_emoji_first_match [THEN conjunct1, rule_format, OF c0 c1])
  with c2 have C: "pick_emoji (Some ?c) = [0x1F687]" by simp
  from A B C show ?thesis by (intro conjI)
qed

text \<open>
  Claim C10: \<open>pick_emoji\<close> returns the news emoji U+1F4F0 on \<open>None\<close> and on the empty
  string, and on every argument its result is one of eleven different strings: the ten
  emoji of the rules and the news emoji.
\<close>

theorem pick_emoji_total:
  "pick_emoji None = NEWS_EMOJI \<and>
   pick_emoji (Some []) = NEWS_EMOJI \<and>
   NEWS_EMOJI = [0x1F4F0] \<and>
   pick_emoji title \<in> set (map snd EMOJI_RULES @ [NEWS_EMOJI]) \<and>
   length (map snd EMOJI_RULES @ [NEWS_EMOJI]) = 11 \<and>
   distinct (map snd EMOJI_RULES @ [NEWS_EMOJI])"
proof -
  have none: "pick_emoji None = NEWS_EMOJI"
    by (simp add: pick_emoji_def EMOJI_RULES_def alt_match_at_def py_def)
  have empty: "pick_emoji (Some []) = NEWS_EMOJI"
    by (simp add: pick_emoji_def EMOJI_RULES_def alt_match_at_def py_def py_or_def)
  have news: "NEWS_EMOJI = [0x1F4F0]"
    by (rule NEWS_EMOJI_def)
  have mem: "pick_emoji title \<in> set (map snd EMOJI_RULES @ [NEWS_EMOJI])"
    unfolding pick_emoji_def by (rule pick_from_range)
  have len: "length (map snd EMOJI_RULES @ [NEWS_EMOJI]) = 11"
    by (simp add: EMOJI_RULES_def)
  have dist: "distinct (map snd EMOJI_RULES @ [NEWS_EMOJI])"
    by (simp add: EMOJI_RULES_def NEWS_EMOJI_def)
  from none empty news mem len dist show ?thesis by (intro conjI)
qed

theorem pick_emoji_total_witness:
  "pick_emoji (Some (py ''Chef opens new restaurant'')) \<in> set (map snd EMOJI_RULES @ [NEWS_EMOJI])"
  by (rule pick_emoji_total [of "Some (py ''Chef opens new restaurant'')", THEN conjunct2,
      THEN conjunct2, THEN conjunct2, THEN conjunct1])



section \<open>Properties of the two loops\<close>

lemma visit_skipped: "skipped get e \<Longrightarrow> visit get e ss = (ss, Next)"
  by (auto simp: visit_def skipped_def Let_def)

lemma visit_kept:
  "\<not> skipped get e \<Longrightarrow>
   visit get e ss =
     (ss @ [resolved_story get e], if length ss \<ge> 3 then Stop else Next)"
  by (auto simp: visit_def skipped_def Let_def resolved_story_def)

lemma resolve_pass_filter:
  "length ss < 4 \<Longrightarrow>
   resolve_pass net i es ss =
     take 4 (ss @ map (\<lambda>(k, e). resolved_story (net k) e)
                    (filter (\<lambda>(k, e). \<not> skipped (net k) e) (enumerate i es)))"
proof (induction es arbitrary: i ss)
  case Nil
  then show ?case by simp
next
  case (Cons e es)
  show ?case
  proof (cases "skipped (net i) e")
    case True
    with Cons show ?thesis by (simp add: visit_skipped)
  next
    case False
    show ?thesis
    proof (cases "length ss \<ge> 3")
      case True
      with Cons.prems have "length ss = 3" by simp
      with False show ?thesis by (simp add: visit_kept)
    next
      case ge: False
      then have "length (ss @ [resolved_story (net i) e]) < 4" by simp
      then have "resolve_pass net (Suc i) es (ss @ [resolved_story (net i) e]) =
        take 4 ((ss @ [resolved_story (net i) e]) @ map (\<lambda>(k, e). resolved_story (net k) e)
                    (filter (\<lambda>(k, e). \<not> skipped (net k) e) (enumerate (Suc i) es)))"
        by (rule Cons.IH)
      with False ge show ?thesis by (simp add: visit_kept)
    qed
  qed
qed

lemma backfill_eq:
  "backfill entries ss = ss @ map fallback_story (drop (length ss) (take 4 entries))"
proof (induction entries ss rule: backfill.induct)
  case (1 entries ss)
  show ?case
  proof (cases "length ss < 4 \<and> length entries > length ss")
    case True
    let ?e = "entries ! length ss"
    have step: "backfill entries ss = backfill entries (ss @ [fallback_story ?e])"
      using True by (subst backfill.simps) (simp add: fallback_story_def Let_def)
    have ih: "backfill entries (ss @ [fallback_story ?e]) =
        (ss @ [fallback_story ?e]) @
          map fallback_story (drop (length (ss @ [fallback_story ?e])) (take 4 entries))"
      using True "1.IH" [of ?e] by (simp add: fallback_story_def)
    have "drop (length ss) (take 4 entries) = ?e # drop (Suc (length ss)) (take 4 entries)"
      using True by (simp add: Cons_nth_drop_Suc [symmetric])
    with step ih show ?thesis by simp
  next
    case False
    then have "backfill entries ss = ss" by (subst backfill.simps) auto
    moreover from False have "drop (length ss) (take 4 entries) = []" by auto
    ultimately show ?thesis by simp
  qed
qed

lemma filter_none_skipped:
  "\<forall>k < length es. \<not> skipped (net (i + k)) (es ! k) \<Longrightarrow>
   filter (\<lambda>(k, e). \<not> skipped (net k) e) (enumerate i es) = enumerate i es"
proof -
  assume a: "\<forall>k < length es. \<not> skipped (net (i + k)) (es ! k)"
  have "\<forall>x \<in> set (enumerate i es). (\<lambda>(k, e). \<not> skipped (net k) e) x"
  proof
    fix x assume "x \<in> set (enumerate i es)"
    then obtain k where "k < length es" and "x = (i + k, es ! k)"
      by (auto simp: in_set_conv_nth nth_enumerate_eq)
    with a show "(\<lambda>(k, e). \<not> skipped (net k) e) x" by simp
  qed
  then show ?thesis by (simp only: filter_True)
qed

lemma first_four_stories:
  assumes len: "4 \<le> length es"
  shows "take 4 (map (\<lambda>(k, e). resolved_story (net k) e) (enumerate 0 es)) =
         map (\<lambda>i. resolved_story (net i) (es ! i)) [0..<4]"
proof (rule nth_equalityI)
  show "length (take 4 (map (\<lambda>(k, e). resolved_story (net k) e) (enumerate 0 es))) =
        length (map (\<lambda>i. resolved_story (net i) (es ! i)) [0..<4])"
    using len by simp
next
  fix i
  assume "i < length (take 4 (map (\<lambda>(k, e). resolved_story (net k) e) (enumerate 0 es)))"
  with len have i: "i < 4" and i': "i < length es" by simp_all
  from i i' show "take 4 (map (\<lambda>(k, e). resolved_story (net k) e) (enumerate 0 es)) ! i =
        map (\<lambda>i. resolved_story (net i) (es ! i)) [0..<4] ! i"
    by (simp add: nth_enumerate_eq)
qed

lemma city_pack_stories:
  "stories (city_pack net clock name feed) =
     take 4 (backfill (take 8 feed) (resolve_pass net 0 (take 8 feed) []))"
  by (simp add: city_pack_def Let_def)

lemma all_kept_stories:
  assumes len: "length feed = 8" and ok: "\<forall>i < 8. \<not> skipped (net i) (feed ! i)"
  shows "stories (city_pack net clock name feed) =
        map (\<lambda>i. resolved_story (net i) (feed ! i)) [0..<4]"
proof -
  from len ok have ok': "\<forall>k < length feed. \<not> skipped (net (0 + k)) (feed ! k)"
    by simp
  have f: "filter (\<lambda>(k, e). \<not> skipped (net k) e) (enumerate 0 feed) = enumerate 0 feed"
    using ok' by (rule filter_none_skipped)
  have "resolve_pass net 0 feed [] =
      take 4 ([] @ map (\<lambda>(k, e). resolved_story (net k) e)
        (filter (\<lambda>(k, e). \<not> skipped (net k) e) (enumerate 0 feed)))"
    by (rule resolve_pass_filter) simp
  also have "\<dots> = take 4 (map (\<lambda>(k, e). resolved_story (net k) e) (enumerate 0 feed))"
    by (simp only: f append_Nil)
  also have "\<dots> = map (\<lambda>i. resolved_story (net i) (feed ! i)) [0..<4]"
    using len by (intro first_four_stories) simp
  finally have r: "resolve_pass net 0 feed [] =
      map (\<lambda>i. resolved_story (net i) (feed ! i)) [0..<4]" .
  have b: "backfill feed (map (\<lambda>i. resolved_story (net i) (feed ! i)) [0..<4]) =
      map (\<lambda>i. resolved_story (net i) (feed ! i)) [0..<4]"
    by (simp add: backfill_eq)
  show ?thesis
    using len by (simp add: city_pack_stories r b)
qed

lemma all_below_8: "list_all P [0, 1, 2, 3, 4, 5, 6, 7::nat] \<Longrightarrow> \<forall>i<8. P i"
proof -
  assume a: "list_all P [0, 1, 2, 3, 4, 5, 6, 7::nat]"
  have "{..<8::nat} = set [0, 1, 2, 3, 4, 5, 6, 7]" by auto
  with a show ?thesis by (metis lessThan_iff list_all_iff)
qed

lemma upt_0_4: "[0..<4] = [0, 1, 2, 3::nat]"
  by (simp add: upt_conv_Cons)

lemma strip_example_titles:
  "strip (py ''Storm floods the old town'') = py ''Storm floods the old town''"
  "strip (py ''Mayor opens new museum'') = py ''Mayor opens new museum''"
  "strip (py ''Metro line extended to airport'') = py ''Metro line extended to airport''"
  "strip (py ''Chef wins dining award'') = py ''Chef wins dining award''"
  "strip (py ''Court hears harbour lawsuit'') = py ''Court hears harbour lawsuit''"
  "strip (py ''Festival draws record crowd'') = py ''Festival draws record crowd''"
  "strip (py ''Startup unveils new chip'') = py ''Startup unveils new chip''"
  "strip (py ''Quiet day in town'') = py ''Quiet day in town''"
  "strip (py ''Metro strike ends'') = py ''Metro strike ends''"
  "strip (py ''Harbour bridge reopens'') = py ''Harbour bridge reopens''"
  by (simp_all add: strip_def py_def isspace_def)

lemma strip_example_links:
  "strip (py ''https://news.google.com/rss/articles/0'') = py ''https://news.google.com/rss/articles/0''"
  "strip (py ''https://news.google.com/rss/articles/1'') = py ''https://news.google.com/rss/articles/1''"
  "strip (py ''https://news.google.com/rss/articles/2'') = py ''https://news.google.com/rss/articles/2''"
  "strip (py ''https://news.google.com/rss/articles/3'') = py ''https://news.google.com/rss/articles/3''"
  "strip (py ''https://news.google.com/rss/articles/4'') = py ''https://news.google.com/rss/articles/4''"
  "strip (py ''https://news.google.com/rss/articles/5'') = py ''https://news.google.com/rss/articles/5''"
  "strip (py ''https://news.google.com/rss/articles/6'') = py ''https://news.google.com/rss/articles/6''"
  "strip (py ''https://news.google.com/rss/articles/7'') = py ''https://news.google.com/rss/articles/7''"
  by (simp_all add: strip_def py_def isspace_def)

lemma example_urls_kept:
  "\<not> str_in NEWS_GOOGLE (py ''https://example.com/0'')"
  "\<not> str_in NEWS_GOOGLE (py ''https://example.com/1'')"
  "\<not> str_in NEWS_GOOGLE (py ''https://example.com/2'')"
  "\<not> str_in NEWS_GOOGLE (py ''https://example.com/3'')"
  "\<not> str_in NEWS_GOOGLE (py ''https://example.com/4'')"
  "\<not> str_in NEWS_GOOGLE (py ''https://example.com/5'')"
  "\<not> str_in NEWS_GOOGLE (py ''https://example.com/6'')"
  "\<not> str_in NEWS_GOOGLE (py ''https://example.com/7'')"
  "\<not> str_in NEWS_GOOGLE (py ''https://example.com/harbour-bridge'')"
  "str_in NEWS_GOOGLE (py ''https://news.google.com/rss/articles/1'')"
  by (simp_all add: NEWS_GOOGLE_def py_def)

lemma example_nonempty:
  "py ''Storm floods the old town'' \<noteq> []"
  "py ''Mayor opens new museum'' \<noteq> []"
  "py ''Metro line extended to airport'' \<noteq> []"
  "py ''Chef wins dining award'' \<noteq> []"
  "py ''Court hears harbour lawsuit'' \<noteq> []"
  "py ''Festival draws record crowd'' \<noteq> []"
  "py ''Startup unveils new chip'' \<noteq> []"
  "py ''Quiet day in town'' \<noteq> []"
  "py ''Metro strike ends'' \<noteq> []"
  "py ''Harbour bridge reopens'' \<noteq> []"
  "py ''https://news.google.com/rss/articles/0'' \<noteq> []"
  "py ''https://news.google.com/rss/articles/1'' \<noteq> []"
  "py ''https://news.google.com/rss/articles/2'' \<noteq> []"
  "py ''https://news.google.com/rss/articles/3'' \<noteq> []"
  "py ''https://news.google.com/rss/articles/4'' \<noteq> []"
  "py ''https://news.google.com/rss/articles/5'' \<noteq> []"
  "py ''https://news.google.com/rss/articles/6'' \<noteq> []"
  "py ''https://news.google.com/rss/articles/7'' \<noteq> []"
  by (simp_all add: py_def)

lemma eight_none_skipped: "\<forall>i < 8. \<not> skipped (eight_answers i) (eight_entries ! i)"
proof (rule all_below_8)
  show "list_all (\<lambda>i. \<not> skipped (eight_answers i) (eight_entries ! i)) [0, 1, 2, 3, 4, 5, 6, 7]"
    by (simp add: skipped_def eight_answers_def eight_entries_def by_position_def always_def
        simple_entry_def getattr_def resolve_url_def strip_example_titles strip_example_links
        example_urls_kept example_nonempty)
qed

lemma source_of_simple_entry: "take 40 (src_name (simple_entry t l)) = py ''Source''"
  by (simp add: src_name_def simple_entry_def getattr_def py_or_def py_def)

lemma resolved_simple_entry:
  assumes "strip t = t" and "strip l = l"
  shows "resolved_story (always (Inr u)) (simple_entry t l) =
         \<lparr>headline = t, source = py ''Source'', url = u\<rparr>"
  unfolding resolved_story_def source_of_simple_entry
  using assms by (simp add: simple_entry_def getattr_def resolve_url_def always_def)

lemma eight_answers_nth:
  "eight_answers 0 = always (Inr (py ''https://example.com/0''))"
  "eight_answers (Suc 0) = always (Inr (py ''https://example.com/1''))"
  "eight_answers 2 = always (Inr (py ''https://example.com/2''))"
  "eight_answers 3 = always (Inr (py ''https://example.com/3''))"
  by (simp_all add: eight_answers_def by_position_def)

lemma eight_entries_nth:
  "eight_entries ! 0 =
     simple_entry (py ''Storm floods the old town'') (py ''https://news.google.com/rss/articles/0'')"
  "eight_entries ! Suc 0 =
     simple_entry (py ''Mayor opens new museum'') (py ''https://news.google.com/rss/articles/1'')"
  "eight_entries ! 2 =
     simple_entry (py ''Metro line extended to airport'') (py ''https://news.google.com/rss/articles/2'')"
  "eight_entries ! 3 =
     simple_entry (py ''Chef wins dining award'') (py ''https://news.google.com/rss/articles/3'')"
  by (simp_all add: eight_entries_def)

lemma eight_stories:
  "stories (city_pack eight_answers clock name eight_entries) =
    [\<lparr>headline = py ''Storm floods the old town'', source = py ''Source'',
       url = py ''https://example.com/0''\<rparr>,
     \<lparr>headline = py ''Mayor opens new museum'', source = py ''Source'',
       url = py ''https://example.com/1''\<rparr>,
     \<lparr>headline = py ''Metro line extended to airport'', source = py ''Source'',
       url = py ''https://example.com/2''\<rparr>,
     \<lparr>headline = py ''Chef wins dining award'', source = py ''Source'',
       url = py ''https://example.com/3''\<rparr>]"
proof -
  have "stories (city_pack eight_answers clock name eight_entries) =
      map (\<lambda>i. resolved_story (eight_answers i) (eight_entries ! i)) [0..<4]"
  proof (rule all_kept_stories)
    show "length eight_entries = 8" by (simp add: eight_entries_def)
    show "\<forall>i < 8. \<not> skipped (eight_answers i) (eight_entries ! i)"
      by (rule eight_none_skipped)
  qed
  also have "\<dots> = map (\<lambda>i. resolved_story (eight_answers i) (eight_entries ! i)) [0, 1, 2, 3]"
    by (simp only: upt_0_4)
  finally show ?thesis
    by (simp add: eight_answers_nth eight_entries_nth resolved_simple_entry
        strip_example_titles strip_example_links)
qed

text \<open>
  Claim C3 says that an entry with a title and a link is skipped exactly when the
  domain of its resolved URL matches the domain of the aggregator. Line 85 tests instead
  whether \<open>news.google\<close> occurs anywhere in the resolved URL: an article of
  \<open>example.com\<close> whose query string names \<open>news.google.com\<close> is skipped, although its
  domain is not the aggregator's.
\<close>

theorem skip_is_a_substring_test:
  "visit (always (Inr (py ''https://example.com/story?ref=news.google.com'')))
     (simple_entry (py ''Harbour bridge reopens'') (py ''https://news.google.com/rss/articles/1''))
     [] = ([], Next) \<and>
   \<not> spec_domain_is_aggregator
       (resolve_url (always (Inr (py ''https://example.com/story?ref=news.google.com'')))
          (py ''https://news.google.com/rss/articles/1''))"
proof -
  have r: "resolve_url (always (Inr (py ''https://example.com/story?ref=news.google.com'')))
          (py ''https://news.google.com/rss/articles/1'') =
        py ''https://example.com/story?ref=news.google.com''"
    by (simp add: resolve_url_def always_def)
  have t: "strip (py ''Harbour bridge reopens'') = py ''Harbour bridge reopens''"
    by (simp add: strip_def py_def isspace_def)
  have l: "strip (py ''https://news.google.com/rss/articles/1'') =
      py ''https://news.google.com/rss/articles/1''"
    by (simp add: strip_def py_def isspace_def)
  have g: "str_in NEWS_GOOGLE (py ''https://example.com/story?ref=news.google.com'')"
    by (simp add: NEWS_GOOGLE_def py_def)
  have d: "spec_url_domain (py ''https://example.com/story?ref=news.google.com'') =
      py ''example.com''"
    by (simp add: spec_url_domain_def py_def)
  have n: "\<not> str_in NEWS_GOOGLE (py ''example.com'')"
    by (simp add: NEWS_GOOGLE_def py_def)
  have "skipped (always (Inr (py ''https://example.com/story?ref=news.google.com'')))
     (simple_entry (py ''Harbour bridge reopens'') (py ''https://news.google.com/rss/articles/1''))"
    by (simp add: skipped_def simple_entry_def getattr_def l r g)
  then have v: "visit (always (Inr (py ''https://example.com/story?ref=news.google.com'')))
     (simple_entry (py ''Harbour bridge reopens'') (py ''https://news.google.com/rss/articles/1''))
     [] = ([], Next)"
    by (rule visit_skipped)
  from d n have "\<not> spec_domain_is_aggregator (py ''https://example.com/story?ref=news.google.com'')"
    by (simp add: spec_domain_is_aggregator_def)
  with v r show ?thesis by simp
qed

text \<open>
  Claim C3, as the script has it: for every entry whose title and link are not empty
  once stripped, a turn of the loop leaves the stories as they are and goes on to the
  next entry (the entry is skipped and takes no place in the quota of four) if and only
  if the resolved URL contains \<open>news.google\<close>; otherwise the turn appends the story of
  the entry.
\<close>

theorem skip_iff_url_contains_news_google:
  "strip (getattr (e_title e) []) \<noteq> [] \<Longrightarrow> strip (getattr (e_link e) []) \<noteq> [] \<Longrightarrow>
   (visit get e ss = (ss, Next)) =
     str_in NEWS_GOOGLE (resolve_url get (strip (getattr (e_link e) []))) \<and>
   (\<not> str_in NEWS_GOOGLE (resolve_url get (strip (getattr (e_link e) []))) \<longrightarrow>
     fst (visit get e ss) = ss @ [resolved_story get e])"
proof -
  assume t: "strip (getattr (e_title e) []) \<noteq> []" and l: "strip (getattr (e_link e) []) \<noteq> []"
  show ?thesis
  proof (cases "str_in NEWS_GOOGLE (resolve_url get (strip (getattr (e_link e) [])))")
    case True
    then have "skipped get e" by (simp add: skipped_def)
    then have "visit get e ss = (ss, Next)" by (rule visit_skipped)
    with True show ?thesis by simp
  next
    case False
    with t l have "\<not> skipped get e" by (simp add: skipped_def)
    then have "visit get e ss =
        (ss @ [resolved_story get e], if length ss \<ge> 3 then Stop else Next)"
      by (rule visit_kept)
    with False show ?thesis by simp
  qed
qed

theorem skip_iff_url_contains_news_google_witness:
  "visit (always (Inl Timeout))
     (simple_entry (py ''Harbour bridge reopens'') (py ''https://news.google.com/rss/articles/1''))
     [] = ([], Next) \<and>
   fst (visit (always (Inr (py ''https://example.com/harbour-bridge'')))
     (simple_entry (py ''Harbour bridge reopens'') (py ''https://news.google.com/rss/articles/1''))
     []) =
     [\<lparr>headline = py ''Harbour bridge reopens'', source = py ''Source'',
       url = py ''https://example.com/harbour-bridge''\<rparr>]"
proof -
  let ?e = "simple_entry (py ''Harbour bridge reopens'') (py ''https://news.google.com/rss/articles/1'')"
  let ?bad = "always (Inl Timeout)"
  let ?good = "always (Inr (py ''https://example.com/harbour-bridge''))"
  have t: "strip (getattr (e_title ?e) []) = py ''Harbour bridge reopens''"
    by (simp add: simple_entry_def getattr_def strip_def py_def isspace_def)
  have l: "strip (getattr (e_link ?e) []) = py ''https://news.google.com/rss/articles/1''"
    by (simp add: simple_entry_def getattr_def strip_def py_def isspace_def)
  have t0: "strip (getattr (e_title ?e) []) \<noteq> []"
    unfolding t by (simp add: py_def)
  have l0: "strip (getattr (e_link ?e) []) \<noteq> []"
    unfolding l by (simp add: py_def)
  have b: "str_in NEWS_GOOGLE (resolve_url ?bad (strip (getattr (e_link ?e) [])))"
    unfolding l by (simp add: resolve_url_def always_def NEWS_GOOGLE_def py_def)
  have g: "\<not> str_in NEWS_GOOGLE (resolve_url ?good (strip (getattr (e_link ?e) [])))"
    unfolding l by (simp add: resolve_url_def always_def NEWS_GOOGLE_def py_def)
  have s: "resolved_story ?good ?e =
      \<lparr>headline = py ''Harbour bridge reopens'', source = py ''Source'',
       url = py ''https://example.com/harbour-bridge''\<rparr>"
    unfolding resolved_story_def t l
    by (simp add: resolve_url_def always_def src_name_def simple_entry_def getattr_def
        py_or_def py_def)
  from skip_iff_url_contains_news_google [OF t0 l0, of ?bad "[]"] b
  have A: "visit ?bad ?e [] = ([], Next)" by simp
  from skip_iff_url_contains_news_google [OF t0 l0, of ?good "[]"] g
  have "fst (visit ?good ?e []) = [] @ [resolved_story ?good ?e]" by simp
  with s have B: "fst (visit ?good ?e []) =
      [\<lparr>headline = py ''Harbour bridge reopens'', source = py ''Source'',
       url = py ''https://example.com/harbour-bridge''\<rparr>]" by simp
  from A B show ?thesis by (rule conjI)
qed

lemma example_domains:
  "spec_url_domain (py ''https://example.com/story?ref=news.google.com'') = py ''example.com''"
  "spec_url_domain (py ''https://example.com/1'') = py ''example.com''"
  "spec_url_domain (py ''https://example.com/2'') = py ''example.com''"
  "spec_url_domain (py ''https://example.com/3'') = py ''example.com''"
  "spec_url_domain (py ''https://example.com/4'') = py ''example.com''"
  "spec_url_domain (py ''https://example.com/5'') = py ''example.com''"
  "spec_url_domain (py ''https://example.com/6'') = py ''example.com''"
  "spec_url_domain (py ''https://example.com/7'') = py ''example.com''"
  by (simp_all add: spec_url_domain_def py_def)

lemma example_domain_kept: "\<not> str_in NEWS_GOOGLE (py ''example.com'')"
  by (simp add: NEWS_GOOGLE_def py_def)

lemma referred_feed_ok: "spec_feed_ok referred_answers eight_entries"
  by (simp add: spec_feed_ok_def spec_entry_ok_def eight_entries_def referred_answers_def
      by_position_def always_def simple_entry_def getattr_def resolve_url_def
      spec_domain_is_aggregator_def strip_example_links example_domains example_domain_kept
      example_nonempty)

lemma referred_answers_nth:
  "referred_answers 0 = always (Inr (py ''https://example.com/story?ref=news.google.com''))"
  "referred_answers (Suc 0) = always (Inr (py ''https://example.com/1''))"
  "referred_answers (Suc (Suc 0)) = always (Inr (py ''https://example.com/2''))"
  "referred_answers (Suc (Suc (Suc 0))) = always (Inr (py ''https://example.com/3''))"
  "referred_answers (Suc (Suc (Suc (Suc 0)))) = always (Inr (py ''https://example.com/4''))"
  by (simp_all add: referred_answers_def by_position_def)

lemma referred_url_skipped:
  "str_in NEWS_GOOGLE (py ''https://example.com/story?ref=news.google.com'')"
  by (simp add: NEWS_GOOGLE_def py_def)

lemma simple_entry_skipped:
  "strip l = l \<Longrightarrow> str_in NEWS_GOOGLE u \<Longrightarrow> skipped (always (Inr u)) (simple_entry t l)"
  by (simp add: skipped_def simple_entry_def getattr_def resolve_url_def always_def)

lemma simple_entry_kept:
  "strip t = t \<Longrightarrow> strip l = l \<Longrightarrow> t \<noteq> [] \<Longrightarrow> l \<noteq> [] \<Longrightarrow> \<not> str_in NEWS_GOOGLE u \<Longrightarrow>
   \<not> skipped (always (Inr u)) (simple_entry t l)"
  by (simp add: skipped_def simple_entry_def getattr_def resolve_url_def always_def)

lemma visit_simple_kept:
  assumes "strip t = t" and "strip l = l" and "t \<noteq> []" and "l \<noteq> []"
    and "\<not> str_in NEWS_GOOGLE u"
  shows "visit (always (Inr u)) (simple_entry t l) ss =
     (ss @ [\<lparr>headline = t, source = py ''Source'', url = u\<rparr>],
      if length ss \<ge> 3 then Stop else Next)"
proof -
  have "\<not> skipped (always (Inr u)) (simple_entry t l)"
    using assms by (rule simple_entry_kept)
  then have "visit (always (Inr u)) (simple_entry t l) ss =
     (ss @ [resolved_story (always (Inr u)) (simple_entry t l)],
      if length ss \<ge> 3 then Stop else Next)"
    by (rule visit_kept)
  then show ?thesis
    using assms(1,2) by (simp only: resolved_simple_entry)
qed

text \<open>
  Claim C6 says that a feed of eight entries, all with a title and a link and all
  resolving to a domain that is not the aggregator's, gives the first four entries in the
  order of the feed. Line 85 skips an entry whose resolved URL contains \<open>news.google\<close>
  anywhere: when the first of eight articles of \<open>example.com\<close> is reached through a
  link that names \<open>news.google.com\<close> in its query string, the pack holds the second to
  the fifth entry.
\<close>

theorem first_four_not_kept_by_domain:
  "length eight_entries = 8 \<and>
   spec_feed_ok referred_answers eight_entries \<and>
   stories (city_pack referred_answers (ticking 0) (py ''Paris'') eight_entries) =
     [\<lparr>headline = py ''Mayor opens new museum'', source = py ''Source'',
        url = py ''https://example.com/1''\<rparr>,
      \<lparr>headline = py ''Metro line extended to airport'', source = py ''Source'',
        url = py ''https://example.com/2''\<rparr>,
      \<lparr>headline = py ''Chef wins dining award'', source = py ''Source'',
        url = py ''https://example.com/3''\<rparr>,
      \<lparr>headline = py ''Court hears harbour lawsuit'', source = py ''Source'',
        url = py ''https://example.com/4''\<rparr>] \<and>
   stories (city_pack referred_answers (ticking 0) (py ''Paris'') eight_entries) \<noteq>
     [resolved_story (referred_answers 0) (eight_entries ! 0),
      resolved_story (referred_answers 1) (eight_entries ! 1),
      resolved_story (referred_answers 2) (eight_entries ! 2),
      resolved_story (referred_answers 3) (eight_entries ! 3)]"
proof -
  let ?e0 = "simple_entry (py ''Storm floods the old town'')
      (py ''https://news.google.com/rss/articles/0'')"
  let ?e1 = "simple_entry (py ''Mayor opens new museum'')
      (py ''https://news.google.com/rss/articles/1'')"
  let ?e2 = "simple_entry (py ''Metro line extended to airport'')
      (py ''https://news.google.com/rss/articles/2'')"
  let ?e3 = "simple_entry (py ''Chef wins dining award'')
      (py ''https://news.google.com/rss/articles/3'')"
  let ?e4 = "simple_entry (py ''Court hears harbour lawsuit'')
      (py ''https://news.google.com/rss/articles/4'')"
  let ?s1 = "\<lparr>headline = py ''Mayor opens new museum'', source = py ''Source'',
        url = py ''https://example.com/1''\<rparr>"
  let ?s2 = "\<lparr>headline = py ''Metro line extended to airport'', source = py ''Source'',
        url = py ''https://example.com/2''\<rparr>"
  let ?s3 = "\<lparr>headline = py ''Chef wins dining award'', source = py ''Source'',
        url = py ''https://example.com/3''\<rparr>"
  let ?s4 = "\<lparr>headline = py ''Court hears harbour lawsuit'', source = py ''Source'',
        url = py ''https://example.com/4''\<rparr>"
  have len: "length eight_entries = 8" by (simp add: eight_entries_def)
  have "skipped (always (Inr (py ''https://example.com/story?ref=news.google.com''))) ?e0"
    by (rule simple_entry_skipped) (rule strip_example_links referred_url_skipped)+
  then have v0: "visit (referred_answers 0) ?e0 [] = ([], Next)"
    unfolding referred_answers_nth by (rule visit_skipped)
  have v1: "visit (referred_answers (Suc 0)) ?e1 [] = ([?s1], Next)"
    unfolding referred_answers_nth
    by (subst visit_simple_kept)
       (simp_all add: strip_example_titles strip_example_links example_nonempty example_urls_kept)
  have v2: "visit (referred_answers (Suc (Suc 0))) ?e2 [?s1] = ([?s1, ?s2], Next)"
    unfolding referred_answers_nth
    by (subst visit_simple_kept)
       (simp_all add: strip_example_titles strip_example_links example_nonempty example_urls_kept)
  have v3: "visit (referred_answers (Suc (Suc (Suc 0)))) ?e3 [?s1, ?s2] = ([?s1, ?s2, ?s3], Next)"
    unfolding referred_answers_nth
    by (subst visit_simple_kept)
       (simp_all add: strip_example_titles strip_example_links example_nonempty example_urls_kept)
  have v4: "visit (referred_answers (Suc (Suc (Suc (Suc 0))))) ?e4 [?s1, ?s2, ?s3] =
      ([?s1, ?s2, ?s3, ?s4], Stop)"
    unfolding referred_answers_nth
    by (subst visit_simple_kept)
       (simp_all add: strip_example_titles strip_example_links example_nonempty example_urls_kept)
  have pass: "resolve_pass referred_answers 0 eight_entries [] = [?s1, ?s2, ?s3, ?s4]"
    by (simp add: eight_entries_def v0 v1 v2 v3 v4)
  have bf: "backfill eight_entries [?s1, ?s2, ?s3, ?s4] = [?s1, ?s2, ?s3, ?s4]"
    by (simp add: backfill_eq)
  have tk: "take 8 eight_entries = eight_entries" using len by simp
  have st: "stories (city_pack referred_answers (ticking 0) (py ''Paris'') eight_entries) =
      [?s1, ?s2, ?s3, ?s4]"
    by (simp add: city_pack_stories tk pass bf)
  have e0: "eight_entries ! 0 = ?e0" by (simp add: eight_entries_def)
  have r0: "resolved_story (referred_answers 0) (eight_entries ! 0) =
      \<lparr>headline = py ''Storm floods the old town'', source = py ''Source'',
        url = py ''https://example.com/story?ref=news.google.com''\<rparr>"
    unfolding e0 referred_answers_nth
    by (rule resolved_simple_entry) (rule strip_example_titles strip_example_links)+
  have d: "py ''Mayor opens new museum'' \<noteq> py ''Storm floods the old town''"
    by (simp add: py_def)
  have ne: "[?s1, ?s2, ?s3, ?s4] \<noteq>
     [resolved_story (referred_answers 0) (eight_entries ! 0),
      resolved_story (referred_answers 1) (eight_entries ! 1),
      resolved_story (referred_answers 2) (eight_entries ! 2),
      resolved_story (referred_answers 3) (eight_entries ! 3)]"
    unfolding r0 using d by simp
  from len referred_feed_ok st ne show ?thesis by (simp only: simp_thms)
qed

text \<open>
  Claim C6, as the script has it: the pack of a city depends on the first eight entries
  of the feed only; and when the feed has eight entries of which none is skipped (each
  has a title and a link that are not empty once stripped, and resolves to a URL that
  does not contain \<open>news.google\<close>), the pack holds exactly four stories, those of the
  first four entries in the order of the feed.
\<close>

theorem first_four_of_eight:
  "(take 8 feed' = take 8 feed \<longrightarrow>
      city_pack net clock name feed' = city_pack net clock name feed) \<and>
   (length feed = 8 \<and> (\<forall>i < 8. \<not> skipped (net i) (feed ! i)) \<longrightarrow>
      length (stories (city_pack net clock name feed)) = 4 \<and>
      stories (city_pack net clock name feed) =
        map (\<lambda>i. resolved_story (net i) (feed ! i)) [0..<4])"
proof (intro conjI impI)
  assume "take 8 feed' = take 8 feed"
  then show "city_pack net clock name feed' = city_pack net clock name feed"
    by (simp add: city_pack_def)
next
  assume h: "length feed = 8 \<and> (\<forall>i < 8. \<not> skipped (net i) (feed ! i))"
  then have s: "stories (city_pack net clock name feed) =
      map (\<lambda>i. resolved_story (net i) (feed ! i)) [0..<4]"
    by (intro all_kept_stories) simp_all
  show "length (stories (city_pack net clock name feed)) = 4" by (simp add: s)
  show "stories (city_pack net clock name feed) =
        map (\<lambda>i. resolved_story (net i) (feed ! i)) [0..<4]" by (rule s)
qed

theorem first_four_of_eight_witness:
  "length (stories (city_pack eight_answers (ticking 0) (py ''Paris'') eight_entries)) = 4 \<and>
   stories (city_pack eight_answers (ticking 0) (py ''Paris'') eight_entries) =
     map (\<lambda>i. resolved_story (eight_answers i) (eight_entries ! i)) [0..<4] \<and>
   city_pack eight_answers (ticking 0) (py ''Paris'')
       (eight_entries @ [simple_entry (py ''Ninth'') (py ''https://news.google.com/rss/articles/8'')]) =
     city_pack eight_answers (ticking 0) (py ''Paris'') eight_entries"
proof -
  have len: "length eight_entries = 8" by (simp add: eight_entries_def)
  have tk: "take 8 (eight_entries @
      [simple_entry (py ''Ninth'') (py ''https://news.google.com/rss/articles/8'')]) =
      take 8 eight_entries"
    using len by simp
  note t = first_four_of_eight [of _ eight_entries eight_answers "ticking 0" "py ''Paris''"]
  from t [THEN conjunct2, THEN mp, OF conjI [OF len eight_none_skipped]]
  have A: "length (stories (city_pack eight_answers (ticking 0) (py ''Paris'') eight_entries)) = 4 \<and>
      stories (city_pack eight_answers (ticking 0) (py ''Paris'') eight_entries) =
        map (\<lambda>i. resolved_story (eight_answers i) (eight_entries ! i)) [0..<4]" .
  from t [THEN conjunct1, THEN mp, OF tk]
  have B: "city_pack eight_answers (ticking 0) (py ''Paris'')
       (eight_entries @ [simple_entry (py ''Ninth'') (py ''https://news.google.com/rss/articles/8'')]) =
     city_pack eight_answers (ticking 0) (py ''Paris'') eight_entries" .
  from A B show ?thesis by simp
qed

lemma main_packs_nth:
  "j < length cities \<Longrightarrow>
   main_packs feed net clock cities ! j =
     city_pack (net j) (clock j) (cities ! j) (feed j (cities ! j))"
  by (simp add: main_packs_def nth_enumerate_eq)

lemma length_make_cards: "length (make_cards clock ss) = length (take 4 ss)"
  by (simp add: make_cards_def)

lemma make_cards_nth:
  "k < length (take 4 ss) \<Longrightarrow>
   make_cards clock ss ! k =
     \<lparr>emoji = pick_emoji (Some (headline (take 4 ss ! k))),
      clue = clue_from_title (clock k) (headline (take 4 ss ! k))\<rparr>"
  by (simp add: make_cards_def nth_enumerate_eq del: length_take)

lemma city_pack_fields:
  "city (city_pack net clock name feed) = name"
  "cards (city_pack net clock name feed) =
     make_cards clock (backfill (take 8 feed) (resolve_pass net 0 (take 8 feed) []))"
  by (simp_all add: city_pack_def Let_def)

lemma second_pack:
  "two_city_packs ! 1 = city_pack eight_answers (ticking 0) (py ''Lima'') eight_entries"
  by (simp add: two_city_packs_def main_packs_nth same_feed_def for_every_city_def)

lemma storm_emoji: "pick_emoji (Some (py ''Storm floods the old town'')) = [0x1F327, 0xFE0F]"
proof -
  have t: "\<not> rx_search (map py [''subway'', ''metro'', ''rail'', ''train'', ''airport'',
      ''flight'', ''transit'']) (py ''Storm floods the old town'')"
    by (simp add: py_def alt_match_at_def ci_char_def)
  have w: "rx_search (map py [''storm'', ''snow'', ''rain'', ''flood'', ''heat'', ''wildfire'',
      ''earthquake'', ''hurricane'']) (py ''Storm floods the old town'')"
    by (simp add: py_def alt_match_at_def ci_char_def)
  show ?thesis
    unfolding pick_emoji_Some EMOJI_RULES_def using t w by simp
qed

lemma museum_clue:
  "clue_from_title 1 (py ''Mayor opens new museum'') =
     py ''Yesterday, everyone was talking about: Mayor opens new museum''"
proof -
  have a: "strip_city_prefix (py ''Mayor opens new museum'') = py ''Mayor opens new museum''"
    by (simp add: strip_city_prefix_def re_sub_anchored_def CITY_PREFIX_def strip_def py_def
        isspace_def is_AZ_def city_class_def)
  have b: "shorten (py ''Mayor opens new museum'') = py ''Mayor opens new museum''"
    by (simp add: shorten_def py_def)
  have c: "starters ! nat (1 mod 4) = py ''Yesterday, everyone was talking about: ''"
    by (simp add: starters_def)
  show ?thesis
    unfolding clue_split a b c by (simp add: py_def)
qed

text \<open>
  Claim C5: in every pack of the output, for the city at position \<open>j\<close> of the input,
  there are as many cards as stories, at most four, and the card at each position is made
  from the headline of the story at that position: its emoji is \<open>pick_emoji\<close> of the
  headline and its clue is \<open>clue_from_title\<close> of the headline, at the clock reading of
  that call.
\<close>

theorem cards_follow_stories:
  "j < length cities \<Longrightarrow> p = main_packs feed net clock cities ! j \<Longrightarrow>
   city p = cities ! j \<and>
   length (cards p) = length (stories p) \<and>
   length (stories p) \<le> 4 \<and>
   (\<forall>k < length (stories p).
      emoji (cards p ! k) = pick_emoji (Some (headline (stories p ! k))) \<and>
      clue (cards p ! k) = clue_from_title (clock j k) (headline (stories p ! k)))"
proof -
  assume j: "j < length cities" and p: "p = main_packs feed net clock cities ! j"
  let ?feed = "feed j (cities ! j)"
  let ?ss = "backfill (take 8 ?feed) (resolve_pass (net j) 0 (take 8 ?feed) [])"
  have pk: "p = city_pack (net j) (clock j) (cities ! j) ?feed"
    using j p by (simp add: main_packs_nth)
  have c: "city p = cities ! j" by (simp add: pk city_pack_fields)
  have st: "stories p = take 4 ?ss" by (simp add: pk city_pack_stories)
  have cd: "cards p = make_cards (clock j) ?ss" by (simp add: pk city_pack_fields)
  have l1: "length (cards p) = length (stories p)"
    by (simp only: st cd length_make_cards)
  have l2: "length (stories p) \<le> 4" by (simp add: st)
  have each: "\<forall>k < length (stories p).
      emoji (cards p ! k) = pick_emoji (Some (headline (stories p ! k))) \<and>
      clue (cards p ! k) = clue_from_title (clock j k) (headline (stories p ! k))"
  proof (intro allI impI)
    fix k assume "k < length (stories p)"
    then have "k < length (take 4 ?ss)" by (simp only: st)
    then have "make_cards (clock j) ?ss ! k =
      \<lparr>emoji = pick_emoji (Some (headline (take 4 ?ss ! k))),
       clue = clue_from_title (clock j k) (headline (take 4 ?ss ! k))\<rparr>"
      by (rule make_cards_nth)
    then show "emoji (cards p ! k) = pick_emoji (Some (headline (stories p ! k))) \<and>
      clue (cards p ! k) = clue_from_title (clock j k) (headline (stories p ! k))"
      by (simp only: st cd card.simps simp_thms)
  qed
  from c l1 l2 each show ?thesis by (intro conjI)
qed

theorem cards_follow_stories_witness:
  "city (two_city_packs ! 1) = py ''Lima'' \<and>
   length (cards (two_city_packs ! 1)) = 4 \<and>
   length (stories (two_city_packs ! 1)) = 4 \<and>
   emoji (cards (two_city_packs ! 1) ! 0) = [0x1F327, 0xFE0F] \<and>
   clue (cards (two_city_packs ! 1) ! 1) =
     py ''Yesterday, everyone was talking about: Mayor opens new museum''"
proof -
  let ?p = "two_city_packs ! 1"
  have j: "(1::nat) < length [py ''Paris'', py ''Lima'']" by simp
  have p: "?p = main_packs (same_feed eight_entries) (for_every_city eight_answers)
       (for_every_city (ticking 0)) [py ''Paris'', py ''Lima''] ! 1"
    by (simp only: two_city_packs_def)
  note t = cards_follow_stories [OF j p]
  have st: "stories ?p =
    [\<lparr>headline = py ''Storm floods the old town'', source = py ''Source'',
       url = py ''https://example.com/0''\<rparr>,
     \<lparr>headline = py ''Mayor opens new museum'', source = py ''Source'',
       url = py ''https://example.com/1''\<rparr>,
     \<lparr>headline = py ''Metro line extended to airport'', source = py ''Source'',
       url = py ''https://example.com/2''\<rparr>,
     \<lparr>headline = py ''Chef wins dining award'', source = py ''Source'',
       url = py ''https://example.com/3''\<rparr>]"
    by (simp only: second_pack eight_stories)
  have n: "length (stories ?p) = 4" unfolding st by simp
  have h0: "headline (stories ?p ! 0) = py ''Storm floods the old town''" unfolding st by simp
  have h1: "headline (stories ?p ! 1) = py ''Mayor opens new museum''" unfolding st by simp
  have ck: "for_every_city (ticking 0) 1 1 = 1" by (simp add: for_every_city_def ticking_def)
  from t have A: "city ?p = py ''Lima''" by simp
  from t n have B: "length (cards ?p) = 4" by simp
  from t have each: "\<forall>k < length (stories ?p).
      emoji (cards ?p ! k) = pick_emoji (Some (headline (stories ?p ! k))) \<and>
      clue (cards ?p ! k) =
        clue_from_title (for_every_city (ticking 0) 1 k) (headline (stories ?p ! k))"
    by (elim conjE)
  from each n have "emoji (cards ?p ! 0) = pick_emoji (Some (headline (stories ?p ! 0)))"
    by simp
  then have C: "emoji (cards ?p ! 0) = [0x1F327, 0xFE0F]"
    by (simp only: h0 storm_emoji)
  from each n have "clue (cards ?p ! 1) =
      clue_from_title (for_every_city (ticking 0) 1 1) (headline (stories ?p ! 1))"
    by simp
  then have D: "clue (cards ?p ! 1) =
      py ''Yesterday, everyone was talking about: Mayor opens new museum''"
    by (simp only: h1 ck museum_clue)
  from A B n C D show ?thesis by (intro conjI)
qed

text \<open>
  Claim C2 says that the slots left free by the first loop are filled with entries of
  the feed that are not yet in the pack, as the comment of line 100 also has it (allow
  the remaining entries as RSS links). The second loop takes the entry at index
  \<open>len(stories)\<close> instead. On a feed of two entries of which the first does not
  resolve and the second does, the pack holds the second entry twice, once resolved and
  once with source \<open>Google News\<close> and the link of the feed, and never the first entry.
\<close>

theorem backfill_repeats_resolved_entry:
  "stories (city_pack two_answers (ticking 0) (py ''Paris'') two_entries) =
     [\<lparr>headline = py ''Harbour bridge reopens'', source = py ''Source'',
        url = py ''https://example.com/harbour-bridge''\<rparr>,
      \<lparr>headline = py ''Harbour bridge reopens'', source = py ''Google News'',
        url = py ''https://news.google.com/rss/articles/2''\<rparr>]"
proof -
  let ?e0 = "simple_entry (py ''Metro strike ends'') (py ''https://news.google.com/rss/articles/1'')"
  let ?e1 = "simple_entry (py ''Harbour bridge reopens'') (py ''https://news.google.com/rss/articles/2'')"
  let ?s = "\<lparr>headline = py ''Harbour bridge reopens'', source = py ''Source'',
        url = py ''https://example.com/harbour-bridge''\<rparr>"
  have l2: "strip (py ''https://news.google.com/rss/articles/2'') =
      py ''https://news.google.com/rss/articles/2''"
    by (rule strip_example_links)
  have n0: "two_answers 0 = always (Inl Timeout)"
    by (simp add: two_answers_def by_position_def)
  have n1: "two_answers (Suc 0) = always (Inr (py ''https://example.com/harbour-bridge''))"
    by (simp add: two_answers_def by_position_def)
  have sk0: "skipped (always (Inl Timeout)) ?e0"
    by (simp add: skipped_def simple_entry_def getattr_def resolve_url_def always_def
        strip_example_titles strip_example_links example_urls_kept)
  have sk1: "\<not> skipped (always (Inr (py ''https://example.com/harbour-bridge''))) ?e1"
    by (simp add: skipped_def simple_entry_def getattr_def resolve_url_def always_def
        strip_example_titles l2 example_urls_kept example_nonempty)
  have st1: "resolved_story (always (Inr (py ''https://example.com/harbour-bridge''))) ?e1 = ?s"
    by (rule resolved_simple_entry) (rule strip_example_titles l2)+
  have v0: "visit (two_answers 0) ?e0 [] = ([], Next)"
    unfolding n0 using sk0 by (rule visit_skipped)
  have v1: "visit (two_answers (Suc 0)) ?e1 [] = ([?s], Next)"
    unfolding n1 using visit_kept [OF sk1, of "[]"] by (simp add: st1)
  have pass: "resolve_pass two_answers 0 two_entries [] = [?s]"
    by (simp add: two_entries_def v0 v1)
  have fb: "fallback_story ?e1 =
      \<lparr>headline = py ''Harbour bridge reopens'', source = py ''Google News'',
        url = py ''https://news.google.com/rss/articles/2''\<rparr>"
    by (simp add: fallback_story_def simple_entry_def getattr_def py_or_def
        strip_example_titles l2 example_nonempty)
  have "backfill two_entries [?s] = [?s] @ map fallback_story (drop (length [?s]) (take 4 two_entries))"
    by (rule backfill_eq)
  also have "\<dots> = [?s, fallback_story ?e1]"
    by (simp add: two_entries_def)
  finally have bf: "backfill two_entries [?s] = [?s, fallback_story ?e1]" .
  have "take 8 two_entries = two_entries" by (simp add: two_entries_def)
  then have "stories (city_pack two_answers (ticking 0) (py ''Paris'') two_entries) =
      take 4 (backfill two_entries (resolve_pass two_answers 0 two_entries []))"
    by (simp add: city_pack_stories)
  also have "\<dots> = [?s, fallback_story ?e1]"
    by (simp only: pass bf) simp
  finally show ?thesis by (simp only: fb)
qed

end
